theory Spec2Isabelle
  imports Main
begin

section \<open>Python values the gym application computes with\<close>

text \<open>
  Exceptions of the Python code are values: a function that may raise returns
  \<open>py_error + 'a\<close>, with \<open>Inl\<close> for the exception that propagates.
\<close>

datatype py_error = ValueError | TypeError | OverflowError | IntegrityError

subsection \<open>datetime.date\<close>

text \<open>
  A \<open>datetime.date\<close> object has the attributes year, month and day. The constructor
  \<open>date(y, m, d)\<close> first converts its three arguments to C ints (OverflowError when
  one does not fit in 32 bits); then it accepts years 1..9999 (MINYEAR, MAXYEAR),
  months 1..12 and days 1..days_in_month, and raises ValueError otherwise.
\<close>

record date =
  year :: int
  month :: int
  day :: int

definition is_leap :: "int \<Rightarrow> bool" where
  "is_leap y = (y mod 4 = 0 \<and> (y mod 100 \<noteq> 0 \<or> y mod 400 = 0))"

definition days_in_month :: "int \<Rightarrow> int \<Rightarrow> int" where
  "days_in_month y m =
     (if m = 2 then (if is_leap y then 29 else 28)
      else if m = 4 \<or> m = 6 \<or> m = 9 \<or> m = 11 then 30
      else 31)"

definition valid_date :: "date \<Rightarrow> bool" where
  "valid_date d =
     (1 \<le> year d \<and> year d \<le> 9999 \<and> 1 \<le> month d \<and> month d \<le> 12 \<and>
      1 \<le> day d \<and> day d \<le> days_in_month (year d) (month d))"

definition c_int :: "int \<Rightarrow> bool" where
  "c_int i = (- 2147483648 \<le> i \<and> i \<le> 2147483647)"

definition mk_date :: "int \<Rightarrow> int \<Rightarrow> int \<Rightarrow> py_error + date" where
  "mk_date y m d =
     (if \<not> (c_int y \<and> c_int m \<and> c_int d) then Inl OverflowError
      else if valid_date \<lparr>year = y, month = m, day = d\<rparr>
      then Inr \<lparr>year = y, month = m, day = d\<rparr>
      else Inl ValueError)"

text \<open>Dates compare as the tuples (year, month, day).\<close>

definition date_le :: "date \<Rightarrow> date \<Rightarrow> bool" where
  "date_le a b =
     (year a < year b \<or>
      (year a = year b \<and> (month a < month b \<or> (month a = month b \<and> day a \<le> day b))))"

definition date_lt :: "date \<Rightarrow> date \<Rightarrow> bool" where
  "date_lt a b = (date_le a b \<and> a \<noteq> b)"

text \<open>
  \<open>d - timedelta(days=1)\<close> and \<open>d + timedelta(days=1)\<close>. The day field moves by one
  and the date is normalised: day 0 is the last day of the month before, day
  days_in_month + 1 is the first day of the month after; a year outside 1..9999 is
  OverflowError.
\<close>

definition date_sub_day :: "date \<Rightarrow> py_error + date" where
  "date_sub_day d =
     (let r = (if 1 < day d then d\<lparr>day := day d - 1\<rparr>
               else if 1 < month d
                 then \<lparr>year = year d, month = month d - 1,
                       day = days_in_month (year d) (month d - 1)\<rparr>
               else \<lparr>year = year d - 1, month = 12, day = 31\<rparr>)
      in if 1 \<le> year r \<and> year r \<le> 9999 then Inr r else Inl OverflowError)"

definition date_add_day :: "date \<Rightarrow> py_error + date" where
  "date_add_day d =
     (let r = (if day d < days_in_month (year d) (month d) then d\<lparr>day := day d + 1\<rparr>
               else if month d < 12 then \<lparr>year = year d, month = month d + 1, day = 1\<rparr>
               else \<lparr>year = year d + 1, month = 1, day = 1\<rparr>)
      in if 1 \<le> year r \<and> year r \<le> 9999 then Inr r else Inl OverflowError)"

subsection \<open>Strings\<close>

text \<open>
  A Python \<open>str\<close> is a \<open>string\<close> here, one \<open>char\<close> per character: the model is
  that of ASCII text, which is what the forms of the application are filled with in
  every statement below. \<open>str.strip()\<close> removes white space on both sides; in ASCII
  these are the characters 9 to 13, 28 to 31 and 32. Outside ASCII Python knows more
  white space (U+0085, U+00A0, U+1680, U+2000 to U+200A, U+2028, U+2029, U+202F,
  U+205F, U+3000) and more decimal digits; a string with such characters is not
  modelled: \<open>strip\<close> and \<open>py_float\<close> below treat them as ordinary characters.
\<close>

definition is_space :: "char \<Rightarrow> bool" where
  "is_space c = (let n = (of_char c :: nat) in (9 \<le> n \<and> n \<le> 13) \<or> (28 \<le> n \<and> n \<le> 32))"

definition strip :: "string \<Rightarrow> string" where
  "strip s = rev (dropWhile is_space (rev (dropWhile is_space s)))"

definition digit_val :: "char \<Rightarrow> nat option" where
  "digit_val c =
     (let n = (of_char c :: nat) in if 48 \<le> n \<and> n \<le> 57 then Some (n - 48) else None)"

definition is_digit :: "char \<Rightarrow> bool" where
  "is_digit c = (digit_val c \<noteq> None)"

definition digit_char :: "nat \<Rightarrow> char" where
  "digit_char n = char_of (48 + n)"

definition digits_val :: "string \<Rightarrow> nat" where
  "digits_val ds = foldl (\<lambda>a c. a * 10 + (case digit_val c of None \<Rightarrow> 0 | Some v \<Rightarrow> v)) 0 ds"

definition to_lower :: "char \<Rightarrow> char" where
  "to_lower c =
     (let n = (of_char c :: nat) in if 65 \<le> n \<and> n \<le> 90 then char_of (n + 32) else c)"

subsection \<open>date.fromisoformat and date.isoformat\<close>

text \<open>
  \<open>parse_digits k acc s\<close> reads exactly \<open>k\<close> decimal digits from the front of \<open>s\<close>.
\<close>

fun parse_digits :: "nat \<Rightarrow> nat \<Rightarrow> string \<Rightarrow> (nat \<times> string) option" where
  "parse_digits 0 acc s = Some (acc, s)"
| "parse_digits (Suc k) acc [] = None"
| "parse_digits (Suc k) acc (c # s) =
     (case digit_val c of None \<Rightarrow> None | Some v \<Rightarrow> parse_digits k (acc * 10 + v) s)"

text \<open>
  \<open>parse_iso(d) = date.fromisoformat(d)\<close> for the format \<open>YYYY-MM-DD\<close>, the one
  \<open>date.isoformat()\<close> writes and the only one the application stores: ten characters,
  four digits, a dash, two digits, a dash, two digits, and then the range check of the
  \<open>date\<close> constructor. Everything else is ValueError. This is \<open>date.fromisoformat\<close>
  of Python 3.7 to 3.10 on every string, and of every later version on the strings of
  this format. Python 3.11 and later read more: the basic format \<open>YYYYMMDD\<close> and the
  ISO week dates (\<open>YYYY-Www-D\<close> and its variants) give a date there and ValueError
  here. The statements below with the hypothesis \<open>parse_iso s = Inr d\<close> are about the
  strings of the format \<open>YYYY-MM-DD\<close>; the statements about \<open>validate_member_inputs\<close>
  without such a hypothesis are also proved for an arbitrary parser
  (\<open>validate_member_inputs_with\<close>).
\<close>

definition parse_iso :: "string \<Rightarrow> py_error + date" where
  "parse_iso s =
     (if length s \<noteq> 10 then Inl ValueError
      else
        (case parse_digits 4 0 s of
           None \<Rightarrow> Inl ValueError
         | Some (y, r1) \<Rightarrow>
             (case r1 of
                [] \<Rightarrow> Inl ValueError
              | c1 # r2 \<Rightarrow>
                  (if c1 \<noteq> CHR ''-'' then Inl ValueError
                   else
                     (case parse_digits 2 0 r2 of
                        None \<Rightarrow> Inl ValueError
                      | Some (m, r3) \<Rightarrow>
                          (case r3 of
                             [] \<Rightarrow> Inl ValueError
                           | c2 # r4 \<Rightarrow>
                               (if c2 \<noteq> CHR ''-'' then Inl ValueError
                                else
                                  (case parse_digits 2 0 r4 of
                                     None \<Rightarrow> Inl ValueError
                                   | Some (d, r5) \<Rightarrow>
                                       mk_date (int y) (int m) (int d)))))))))"

text \<open>
  \<open>pad_digits w n\<close> is \<open>"%0wd" % n\<close> for \<open>n < 10 ^ w\<close>, which holds for the fields of
  every date object (year at most 9999, month and day at most 31).
\<close>

primrec pad_digits :: "nat \<Rightarrow> nat \<Rightarrow> string" where
  "pad_digits 0 n = []"
| "pad_digits (Suc w) n = pad_digits w (n div 10) @ [digit_char (n mod 10)]"

definition isoformat :: "date \<Rightarrow> string" where
  "isoformat d =
     pad_digits 4 (nat (year d)) @ ''-'' @ pad_digits 2 (nat (month d)) @ ''-'' @
     pad_digits 2 (nat (day d))"

subsection \<open>float()\<close>

text \<open>
  The argument of \<open>float(...)\<close> is untyped in \<open>validate_member_inputs\<close>: a \<open>str\<close>
  (what the forms pass), an \<open>int\<close>, a \<open>float\<close> or \<open>None\<close> (any other object without
  \<open>__float__\<close> behaves like \<open>None\<close>: TypeError).

  A float value is an infinity, a NaN, or \<open>Finite s m e\<close>: the double nearest to the
  decimal number \<open>(-1)^s * m * 10^e\<close>, which lies in the range of the finite doubles.
  The rounding of the digits to 53 bits is not modelled; what is modelled is whether a
  literal is accepted, its sign, and whether it rounds to an infinity or to zero.
\<close>

datatype float_val = Finite bool nat int | Infinity bool | NaN

datatype pyval = PyStr string | PyInt int | PyFloat float_val | PyNone

definition fv_negative :: "float_val \<Rightarrow> bool" where
  "fv_negative v =
     (case v of Finite s m e \<Rightarrow> s \<and> 0 < m | Infinity s \<Rightarrow> s | NaN \<Rightarrow> False)"

text \<open>
  The double a decimal number \<open>m * 10^e\<close> with sign \<open>s\<close> rounds to (to nearest, ties
  to even): an infinity from \<open>2^1024 - 2^970\<close> on, halfway between the largest double
  and \<open>2^1024\<close>; zero up to \<open>2^-1075\<close>, half of the smallest double.
\<close>

definition rounds_to_infinity :: "nat \<Rightarrow> int \<Rightarrow> bool" where
  "rounds_to_infinity m e =
     (if 0 \<le> e then 2 ^ 1024 - 2 ^ 970 \<le> int m * 10 ^ nat e
      else (2 ^ 1024 - 2 ^ 970) * 10 ^ nat (- e) \<le> int m)"

definition rounds_to_zero :: "nat \<Rightarrow> int \<Rightarrow> bool" where
  "rounds_to_zero m e =
     (if 0 \<le> e then m = 0 else int m * 2 ^ 1075 \<le> 10 ^ nat (- e))"

definition round_double :: "bool \<Rightarrow> nat \<Rightarrow> int \<Rightarrow> float_val" where
  "round_double s m e =
     (if rounds_to_infinity m e then Infinity s
      else if rounds_to_zero m e then Finite s 0 0
      else Finite s m e)"

text \<open>
  \<open>float\<close> strips the white space of C's \<open>isspace\<close> from a string: the characters 9
  to 13 and 32 (not 28 to 31, which \<open>str.strip\<close> removes).
\<close>

definition is_float_space :: "char \<Rightarrow> bool" where
  "is_float_space c = (let n = (of_char c :: nat) in (9 \<le> n \<and> n \<le> 13) \<or> n = 32)"

definition float_strip :: "string \<Rightarrow> string" where
  "float_strip s = rev (dropWhile is_float_space (rev (dropWhile is_float_space s)))"

text \<open>
  Underscores in a numeric literal: allowed only between two digits; they are removed
  before the number is read.
\<close>

fun remove_underscores :: "char option \<Rightarrow> string \<Rightarrow> string option" where
  "remove_underscores prev [] = (if prev = Some (CHR ''_'') then None else Some [])"
| "remove_underscores prev (c # s) =
     (if c = CHR ''_'' then
        (if (case prev of None \<Rightarrow> False | Some p \<Rightarrow> is_digit p)
         then remove_underscores (Some c) s else None)
      else if prev = Some (CHR ''_'') \<and> \<not> is_digit c then None
      else map_option ((#) c) (remove_underscores (Some c) s))"

definition parse_sign :: "string \<Rightarrow> bool \<times> string" where
  "parse_sign s =
     (case s of
        [] \<Rightarrow> (False, s)
      | c # r \<Rightarrow> if c = CHR ''-'' then (True, r) else if c = CHR ''+'' then (False, r)
                 else (False, s))"

text \<open>
  The literal after white space and underscores are gone: an optional sign, then
  \<open>inf\<close>, \<open>infinity\<close> or \<open>nan\<close> in any case, or digits with an optional fraction (at
  least one digit in all) and an optional exponent (\<open>e\<close> or \<open>E\<close>, optional sign, at
  least one digit). The whole string must be consumed. A number is rounded to a
  double; it is never an error for being too large or too small.
\<close>

definition parse_float_literal :: "string \<Rightarrow> float_val option" where
  "parse_float_literal s =
     (let (neg, r) = parse_sign s; lr = map to_lower r in
      if lr = ''inf'' \<or> lr = ''infinity'' then Some (Infinity neg)
      else if lr = ''nan'' then Some NaN
      else
        let ip = takeWhile is_digit r; r1 = dropWhile is_digit r;
            (fp, r2) = (case r1 of
                          [] \<Rightarrow> ([], r1)
                        | c # t \<Rightarrow> if c = CHR ''.''
                                   then (takeWhile is_digit t, dropWhile is_digit t)
                                   else ([], r1))
        in if ip = [] \<and> fp = [] then None
           else case r2 of
             [] \<Rightarrow> Some (round_double neg (digits_val (ip @ fp)) (- int (length fp)))
           | c # t \<Rightarrow>
               if c = CHR ''e'' \<or> c = CHR ''E'' then
                 (let (eneg, r3) = parse_sign t;
                      ed = takeWhile is_digit r3; r4 = dropWhile is_digit r3
                  in if ed = [] \<or> r4 \<noteq> [] then None
                     else Some (round_double neg (digits_val (ip @ fp))
                            ((if eneg then - int (digits_val ed) else int (digits_val ed))
                             - int (length fp))))
               else None)"

text \<open>
  \<open>float(x)\<close>: a string is stripped and parsed (ValueError when it is no literal); an
  int converts unless it is too large for a double (OverflowError); a float is
  returned as it is; \<open>None\<close> is TypeError.
\<close>

definition py_float :: "pyval \<Rightarrow> py_error + float_val" where
  "py_float x =
     (case x of
        PyStr s \<Rightarrow>
          (case remove_underscores None (float_strip s) of
             None \<Rightarrow> Inl ValueError
           | Some t \<Rightarrow>
               (case parse_float_literal t of None \<Rightarrow> Inl ValueError | Some v \<Rightarrow> Inr v))
      | PyInt i \<Rightarrow>
          if \<bar>i\<bar> < 2 ^ 1024 - 2 ^ 970 then Inr (Finite (i < 0) (nat \<bar>i\<bar>) 0)
          else Inl OverflowError
      | PyFloat v \<Rightarrow> Inr v
      | PyNone \<Rightarrow> Inl TypeError)"

section \<open>utils.py: the date and plan engine\<close>

text \<open>
  \<open>add_months(start, months)\<close>: the target year and month by floor division, the
  first day of the month after the target (a \<open>date(...)\<close> call, which can raise),
  one day back from it for the last day of the target month, and the day clamped.
\<close>

definition add_months :: "date \<Rightarrow> int \<Rightarrow> py_error + date" where
  "add_months start months =
     (let y = year start + (month start - 1 + months) div 12;
          m = (month start - 1 + months) mod 12 + 1
      in case (if m = 12 then mk_date (y + 1) 1 1 else mk_date y (m + 1) 1) of
           Inl e \<Rightarrow> Inl e
         | Inr next_month \<Rightarrow>
             (case date_sub_day next_month of
                Inl e \<Rightarrow> Inl e
              | Inr last_day \<Rightarrow> mk_date y m (min (day start) (day last_day))))"

text \<open>models.py: the plan durations in months.\<close>

definition PLAN_MONTHS :: "string \<rightharpoonup> int" where
  "PLAN_MONTHS =
     [''1 month'' \<mapsto> 1, ''3 months'' \<mapsto> 3, ''6 months'' \<mapsto> 6, ''12 months'' \<mapsto> 12]"

text \<open>\<open>calc_end_date\<close>: \<open>PLAN_MONTHS.get(plan_type, 1)\<close> months after the parsed start.\<close>

definition calc_end_date :: "string \<Rightarrow> string \<Rightarrow> py_error + string" where
  "calc_end_date start_date_iso plan_type =
     (case parse_iso start_date_iso of
        Inl e \<Rightarrow> Inl e
      | Inr start \<Rightarrow>
          (let months = (case PLAN_MONTHS plan_type of None \<Rightarrow> 1 | Some k \<Rightarrow> k)
           in case add_months start months of
                Inl e \<Rightarrow> Inl e
              | Inr end_d \<Rightarrow> Inr (isoformat end_d)))"

text \<open>
  \<open>infer_status\<close> reads the clock (\<open>date.today()\<close>); the current date is the first
  argument here.
\<close>

definition infer_status :: "date \<Rightarrow> string \<Rightarrow> py_error + string" where
  "infer_status today end_date_iso =
     (case parse_iso end_date_iso of
        Inl e \<Rightarrow> Inl e
      | Inr d \<Rightarrow> Inr (if date_le today d then ''active'' else ''expired''))"

subsection \<open>Validation\<close>

text \<open>
  \<open>validate_member_inputs\<close> collects messages. Each \<open>try\<close> block catches every
  exception of its body; in the second block the ordering test runs only after both
  dates have parsed. The statements outside the blocks (\<open>str.strip\<close> on a \<open>str\<close>,
  \<open>list.append\<close>) cannot raise, so the result is always \<open>Inr\<close> of the list.
\<close>

definition validate_member_inputs ::
  "string \<Rightarrow> string \<Rightarrow> pyval \<Rightarrow> string \<Rightarrow> string \<Rightarrow> py_error + string list" where
  "validate_member_inputs full_name phone plan_price start_date end_date =
     (let errors0 = [];
          errors1 = (if strip full_name = [] then errors0 @ [''Full name is required.'']
                     else errors0);
          errors2 = (if strip phone = [] then errors1 @ [''Phone is required.'']
                     else errors1);
          errors3 = (case py_float plan_price of
                       Inl e \<Rightarrow> errors2 @ [''Plan price must be numeric.'']
                     | Inr v \<Rightarrow> errors2);
          errors4 = (case parse_iso start_date of
                       Inl e \<Rightarrow>
                         errors3 @ [''Start/end dates must be valid ISO dates (YYYY-MM-DD).'']
                     | Inr sd \<Rightarrow>
                         (case parse_iso end_date of
                            Inl e \<Rightarrow>
                              errors3 @
                              [''Start/end dates must be valid ISO dates (YYYY-MM-DD).'']
                          | Inr ed \<Rightarrow>
                              if date_le ed sd
                              then errors3 @ [''End date must be after start date.'']
                              else errors3))
      in Inr errors4)"

section \<open>db.py: the persisted tables\<close>

text \<open>The rows of \<open>members\<close>, \<open>payments\<close> and \<open>admin_users\<close>, column by column.\<close>

record member_row =
  m_id :: int
  m_full_name :: string
  m_phone :: string
  m_national_id :: "string option"
  m_join_date :: string
  m_plan_type :: string
  m_plan_price :: float_val
  m_start_date :: string
  m_end_date :: string
  m_status :: string

record payment_row =
  p_id :: int
  p_member_id :: int
  p_amount :: float_val
  p_date :: string
  p_method :: string
  p_notes :: "string option"

record admin_row =
  a_id :: int
  a_username :: string
  a_password_hash :: string
  a_created_at :: string

text \<open>
  The database file: three tables in row order, and \<open>app_settings\<close>, whose key is the
  primary key, as a map.
\<close>

record db_state =
  members :: "member_row list"
  payments :: "payment_row list"
  admin_users :: "admin_row list"
  app_settings :: "string \<rightharpoonup> string"

text \<open>
  A connection carries SQLite's per-connection switch for foreign keys. SQLite opens
  every connection with the enforcement of foreign keys off; it is on only after
  \<open>PRAGMA foreign_keys = ON\<close> on that connection. \<open>get_conn\<close> connects, sets the row
  factory and yields the connection: no pragma is issued, there or anywhere else.
\<close>

record connection =
  foreign_keys :: bool

definition get_conn :: connection where
  "get_conn = \<lparr>foreign_keys = False\<rparr>"

text \<open>
  \<open>DELETE FROM members WHERE id = ?\<close> on a connection. The schema declares
  \<open>payments.member_id REFERENCES members(id) ON DELETE CASCADE\<close>; the action runs only
  on a connection that enforces foreign keys.
\<close>

definition delete_member_stmt :: "connection \<Rightarrow> int \<Rightarrow> db_state \<Rightarrow> db_state" where
  "delete_member_stmt conn mid db =
     db\<lparr>members := filter (\<lambda>m. m_id m \<noteq> mid) (members db),
        payments := (if foreign_keys conn
                     then filter (\<lambda>p. p_member_id p \<noteq> mid) (payments db)
                     else payments db)\<rparr>"

text \<open>
  The Delete button of \<open>members_page\<close>: \<open>db.execute("DELETE FROM members WHERE id = ?",
  (int(selected_id),))\<close>, and \<open>db.execute\<close> takes its connection from \<open>get_conn\<close>.
\<close>

definition members_page_delete :: "int \<Rightarrow> db_state \<Rightarrow> db_state" where
  "members_page_delete selected_id db = delete_member_stmt get_conn selected_id db"

text \<open>The payment rows whose \<open>member_id\<close> is the id of no member.\<close>

definition orphan_payments :: "db_state \<Rightarrow> payment_row list" where
  "orphan_payments db =
     filter (\<lambda>p. p_member_id p \<notin> set (map m_id (members db))) (payments db)"

text \<open>
  \<open>UPDATE members SET status = ? WHERE id = ?\<close>. The column has
  \<open>CHECK(status IN ('active','expired'))\<close>, tested on the rows the statement changes.
\<close>

definition update_member_status :: "string \<Rightarrow> int \<Rightarrow> db_state \<Rightarrow> py_error + db_state" where
  "update_member_status st mid db =
     (if mid \<in> set (map m_id (members db)) \<and> st \<noteq> ''active'' \<and> st \<noteq> ''expired''
      then Inl IntegrityError
      else Inr (db\<lparr>members :=
                  map (\<lambda>m. if m_id m = mid then m\<lparr>m_status := st\<rparr> else m) (members db)\<rparr>))"

text \<open>\<open>UPDATE admin_users SET password_hash = ? WHERE username = ?\<close>.\<close>

definition update_admin_hash :: "string \<Rightarrow> string \<Rightarrow> db_state \<Rightarrow> db_state" where
  "update_admin_hash new_hash username db =
     db\<lparr>admin_users :=
          map (\<lambda>a. if a_username a = username then a\<lparr>a_password_hash := new_hash\<rparr> else a)
            (admin_users db)\<rparr>"

text \<open>
  \<open>_set_setting\<close>: \<open>INSERT ... ON CONFLICT(key) DO UPDATE SET value = excluded.value\<close>,
  an insert or an overwrite of the key.
\<close>

definition set_setting :: "string \<Rightarrow> string \<Rightarrow> db_state \<Rightarrow> db_state" where
  "set_setting k v db = db\<lparr>app_settings := (app_settings db)(k \<mapsto> v)\<rparr>"

definition clear_force_password_change :: "db_state \<Rightarrow> db_state" where
  "clear_force_password_change db = set_setting ''force_password_change'' ''0'' db"

section \<open>auth.py\<close>

text \<open>
  The bcrypt primitives are outside the repository: \<open>hashpw\<close> (secret and salt to
  hash) and \<open>checkpw\<close> (secret and stored hash to a truth value) are parameters, and
  either may raise. The salt \<open>bcrypt.gensalt(rounds=12)\<close> draws is an argument.

  \<open>_to_bcrypt_secret\<close>: the UTF-8 bytes of the password, at most the first 72.
\<close>

definition to_bcrypt_secret :: "string \<Rightarrow> string" where
  "to_bcrypt_secret password =
     (let pw = password in if length pw > 72 then take 72 pw else pw)"

definition hash_password ::
  "(string \<Rightarrow> string \<Rightarrow> py_error + string) \<Rightarrow> string \<Rightarrow> string \<Rightarrow> py_error + string" where
  "hash_password hashpw salt password = hashpw (to_bcrypt_secret password) salt"

definition verify_password ::
  "(string \<Rightarrow> string \<Rightarrow> py_error + bool) \<Rightarrow> string \<Rightarrow> string \<Rightarrow> py_error + bool" where
  "verify_password checkpw password password_hash =
     checkpw (to_bcrypt_secret password) password_hash"

text \<open>\<open>fetch_one\<close> of \<open>SELECT * FROM admin_users WHERE username = ?\<close>: the first row or None.\<close>

definition get_admin_by_username :: "db_state \<Rightarrow> string \<Rightarrow> admin_row option" where
  "get_admin_by_username db username =
     find (\<lambda>a. a_username a = username) (admin_users db)"

definition login ::
  "(string \<Rightarrow> string \<Rightarrow> py_error + bool) \<Rightarrow> db_state \<Rightarrow> string \<Rightarrow> string \<Rightarrow> py_error + bool"
  where
  "login checkpw db username password =
     (case get_admin_by_username db username of
        None \<Rightarrow> Inr False
      | Some admin \<Rightarrow> verify_password checkpw password (a_password_hash admin))"

definition change_password ::
  "(string \<Rightarrow> string \<Rightarrow> py_error + string) \<Rightarrow> string \<Rightarrow> string \<Rightarrow> string \<Rightarrow> db_state
     \<Rightarrow> py_error + db_state" where
  "change_password hashpw salt username new_password db =
     (case hash_password hashpw salt new_password of
        Inl e \<Rightarrow> Inl e
      | Inr new_hash \<Rightarrow>
          Inr (clear_force_password_change (update_admin_hash new_hash username db)))"

section \<open>app.py\<close>

text \<open>
  \<open>refresh_member_statuses\<close>: the rows \<open>(id, end_date)\<close> are fetched once, then one
  UPDATE per row, each committed on its own. An exception of \<open>infer_status\<close> or of
  an UPDATE leaves the loop with the earlier rows already written. The current date
  is one value for the whole pass.
\<close>

fun refresh_loop :: "date \<Rightarrow> (int \<times> string) list \<Rightarrow> db_state \<Rightarrow> py_error + db_state" where
  "refresh_loop today [] db = Inr db"
| "refresh_loop today ((rid, rend) # rows) db =
     (case infer_status today rend of
        Inl e \<Rightarrow> Inl e
      | Inr status \<Rightarrow>
          (case update_member_status status rid db of
             Inl e \<Rightarrow> Inl e
           | Inr db' \<Rightarrow> refresh_loop today rows db'))"

definition refresh_member_statuses :: "date \<Rightarrow> db_state \<Rightarrow> py_error + db_state" where
  "refresh_member_statuses today db =
     refresh_loop today (map (\<lambda>m. (m_id m, m_end_date m)) (members db)) db"

text \<open>
  \<open>renewals_page\<close>, the default of the start date input for the chosen member \<open>m\<close>:
  today, or the day after the current end date when that end date is not before today.
\<close>

definition renewals_page_default_start :: "date \<Rightarrow> member_row \<Rightarrow> py_error + date" where
  "renewals_page_default_start today m =
     (case parse_iso (m_end_date m) of
        Inl e \<Rightarrow> Inl e
      | Inr current_end \<Rightarrow>
          (let default_start = today
           in if date_le today current_end then date_add_day current_end
              else Inr default_start))"

section \<open>The civil calendar, as the specification words it\<close>

text \<open>
  The date \<open>n\<close> months after \<open>d\<close> in the specification's words: count months from year
  0, move \<open>n\<close> months on, carry the year, and clamp the day to the last day of the
  target month. \<open>add_months\<close> is compared with it below.
\<close>

definition spec_add_months :: "date \<Rightarrow> int \<Rightarrow> date" where
  "spec_add_months d n =
     (let k = year d * 12 + (month d - 1) + n; y = k div 12; m = k mod 12 + 1
      in \<lparr>year = y, month = m, day = min (day d) (days_in_month y m)\<rparr>)"

text \<open>
  The plan durations in the specification's words: the four enumerated plan types,
  and one month for every other string.
\<close>

definition spec_plan_months :: "string \<Rightarrow> int" where
  "spec_plan_months t =
     (if t = ''1 month'' then 1 else if t = ''3 months'' then 3
      else if t = ''6 months'' then 6 else if t = ''12 months'' then 12 else 1)"

section \<open>Auxiliary definitions\<close>

text \<open>
  One member row after one UPDATE of the refresh pass (\<open>refresh_step\<close>, for the fetched
  row \<open>r = (id, end_date)\<close>), and a member row with its status recomputed from its own
  end date (\<open>refreshed\<close>). A status that cannot be computed leaves the row as it is.
\<close>

definition status_or :: "date \<Rightarrow> string \<Rightarrow> string \<Rightarrow> string" where
  "status_or today end_date_iso cur =
     (case infer_status today end_date_iso of Inl e \<Rightarrow> cur | Inr s \<Rightarrow> s)"

definition refresh_step :: "date \<Rightarrow> int \<times> string \<Rightarrow> member_row \<Rightarrow> member_row" where
  "refresh_step today r m =
     (if m_id m = fst r then m\<lparr>m_status := status_or today (snd r) (m_status m)\<rparr> else m)"

definition refreshed :: "date \<Rightarrow> member_row \<Rightarrow> member_row" where
  "refreshed today m = m\<lparr>m_status := status_or today (m_end_date m) (m_status m)\<rparr>"

text \<open>
  \<open>validate_member_inputs\<close> with the three library calls it makes as parameters:
  \<open>str.strip\<close>, \<open>float\<close> and \<open>date.fromisoformat\<close>. What is proved of it holds
  whatever strings the library of a given Python version accepts.
\<close>

definition validate_member_inputs_with ::
  "(string \<Rightarrow> string) \<Rightarrow> (pyval \<Rightarrow> py_error + 'f) \<Rightarrow> (string \<Rightarrow> py_error + date) \<Rightarrow>
   string \<Rightarrow> string \<Rightarrow> pyval \<Rightarrow> string \<Rightarrow> string \<Rightarrow> py_error + string list" where
  "validate_member_inputs_with strip_fn float_fn fromisoformat
     full_name phone plan_price start_date end_date =
     (let errors0 = [];
          errors1 = (if strip_fn full_name = [] then errors0 @ [''Full name is required.'']
                     else errors0);
          errors2 = (if strip_fn phone = [] then errors1 @ [''Phone is required.'']
                     else errors1);
          errors3 = (case float_fn plan_price of
                       Inl e \<Rightarrow> errors2 @ [''Plan price must be numeric.'']
                     | Inr v \<Rightarrow> errors2);
          errors4 = (case fromisoformat start_date of
                       Inl e \<Rightarrow>
                         errors3 @ [''Start/end dates must be valid ISO dates (YYYY-MM-DD).'']
                     | Inr sd \<Rightarrow>
                         (case fromisoformat end_date of
                            Inl e \<Rightarrow>
                              errors3 @
                              [''Start/end dates must be valid ISO dates (YYYY-MM-DD).'']
                          | Inr ed \<Rightarrow>
                              if date_le ed sd
                              then errors3 @ [''End date must be after start date.'']
                              else errors3))
      in Inr errors4)"

text \<open>
  The database \<open>insert_sample_data\<close> leaves when it runs on 2024-03-28 in a freshly
  initialised database: three members (the second end date is
  \<open>calc_end_date("2024-03-18", "3 months")\<close>), one payment each, the default admin and
  the forced password change still pending.
\<close>

definition sample_today :: date where
  "sample_today = \<lparr>year = 2024, month = 3, day = 28\<rparr>"

definition sample_members :: "member_row list" where
  "sample_members =
     [\<lparr>m_id = 1, m_full_name = ''Ahmed Hassan'', m_phone = ''01000000001'',
       m_national_id = Some ''12345678901234'', m_join_date = ''2024-03-28'',
       m_plan_type = ''1 month'', m_plan_price = Finite False 300 0,
       m_start_date = ''2024-03-03'', m_end_date = ''2024-04-02'', m_status = ''active''\<rparr>,
      \<lparr>m_id = 2, m_full_name = ''Mona Ali'', m_phone = ''01000000002'',
       m_national_id = None, m_join_date = ''2024-03-28'',
       m_plan_type = ''3 months'', m_plan_price = Finite False 800 0,
       m_start_date = ''2024-03-18'', m_end_date = ''2024-06-18'', m_status = ''active''\<rparr>,
      \<lparr>m_id = 3, m_full_name = ''Omar Samy'', m_phone = ''01000000003'',
       m_national_id = None, m_join_date = ''2024-03-28'',
       m_plan_type = ''1 month'', m_plan_price = Finite False 300 0,
       m_start_date = ''2024-01-28'', m_end_date = ''2024-03-26'', m_status = ''expired''\<rparr>]"

definition sample_payments :: "payment_row list" where
  "sample_payments =
     [\<lparr>p_id = 1, p_member_id = 1, p_amount = Finite False 300 0, p_date = ''2024-03-28'',
       p_method = ''cash'', p_notes = Some ''Sample payment''\<rparr>,
      \<lparr>p_id = 2, p_member_id = 2, p_amount = Finite False 800 0, p_date = ''2024-03-28'',
       p_method = ''card'', p_notes = Some ''3-month plan paid''\<rparr>,
      \<lparr>p_id = 3, p_member_id = 3, p_amount = Finite False 300 0, p_date = ''2024-01-28'',
       p_method = ''transfer'', p_notes = Some ''Old payment''\<rparr>]"

definition sample_db :: db_state where
  "sample_db =
     \<lparr>members = sample_members, payments = sample_payments,
      admin_users = [\<lparr>a_id = 1, a_username = ''admin'', a_password_hash = ''hash-of-admin123'',
                      a_created_at = ''2024-03-28T09:00:00''\<rparr>],
      app_settings = [''force_password_change'' \<mapsto> ''1'']\<rparr>"

section \<open>Properties of the date and plan engine\<close>

subsection \<open>Calendar facts\<close>

lemma days_in_month_ge28: "28 \<le> days_in_month y m"
  by (simp add: days_in_month_def)

lemma days_in_month_le31: "days_in_month y m \<le> 31"
  by (simp add: days_in_month_def)

lemma date_le_refl: "date_le d d"
  by (simp add: date_le_def)

lemma date_sub_first:
  assumes "1 \<le> y" "y \<le> 9999" "2 \<le> m" "m \<le> 12"
  shows "date_sub_day \<lparr>year = y, month = m, day = 1\<rparr>
         = Inr \<lparr>year = y, month = m - 1, day = days_in_month y (m - 1)\<rparr>"
  using assms by (simp add: date_sub_day_def Let_def)

lemma date_sub_newyear:
  assumes "2 \<le> y" "y \<le> 10000"
  shows "date_sub_day \<lparr>year = y, month = 1, day = 1\<rparr>
         = Inr \<lparr>year = y - 1, month = 12, day = 31\<rparr>"
  using assms by (simp add: date_sub_day_def Let_def)

text \<open>The constructor: a valid date fits in C ints, so it is returned.\<close>

lemma valid_date_c_int:
  assumes "valid_date \<lparr>year = y, month = m, day = d\<rparr>"
  shows "c_int y" "c_int m" "c_int d"
  using assms days_in_month_le31 [of y m] by (simp_all add: valid_date_def c_int_def)

lemma mk_date_valid:
  assumes "valid_date \<lparr>year = y, month = m, day = d\<rparr>"
  shows "mk_date y m d = Inr \<lparr>year = y, month = m, day = d\<rparr>"
  using assms valid_date_c_int [OF assms] by (simp add: mk_date_def)

lemma mk_date_Inr:
  assumes "mk_date y m d = Inr x"
  shows "x = \<lparr>year = y, month = m, day = d\<rparr>" and "valid_date x"
  using assms by (auto simp add: mk_date_def split: if_splits)

lemma mk_date_out_of_range:
  assumes "c_int y" "c_int m" "c_int d" "\<not> valid_date \<lparr>year = y, month = m, day = d\<rparr>"
  shows "mk_date y m d = Inl ValueError"
  using assms by (simp add: mk_date_def)

lemma mk_date_first:
  assumes "1 \<le> y" "y \<le> 9999" "1 \<le> m" "m \<le> 12"
  shows "mk_date y m 1 = Inr \<lparr>year = y, month = m, day = 1\<rparr>"
  using assms days_in_month_ge28 [of y m] by (intro mk_date_valid) (simp add: valid_date_def)

subsection \<open>add_months\<close>

text \<open>The body of \<open>add_months\<close> with the target year and month named.\<close>

lemma add_months_unfold:
  assumes "a = month d - 1 + n" and "y = year d + a div 12" and "m = a mod 12 + 1"
  shows "add_months d n =
     (case (if m = 12 then mk_date (y + 1) 1 1 else mk_date y (m + 1) 1) of
        Inl e \<Rightarrow> Inl e
      | Inr next_month \<Rightarrow>
          (case date_sub_day next_month of
             Inl e \<Rightarrow> Inl e
           | Inr last_day \<Rightarrow> mk_date y m (min (day d) (day last_day))))"
  unfolding add_months_def Let_def assms by (rule refl)

lemma add_months_in_range:
  assumes v: "valid_date d" and n: "0 \<le> n"
    and r: "year d * 12 + (month d - 1) + n < 9999 * 12 + 11"
  shows "add_months d n = Inr (spec_add_months d n)"
    and "valid_date (spec_add_months d n)"
proof -
  define k where "k = year d * 12 + (month d - 1) + n"
  define a where "a = month d - 1 + n"
  define y where "y = year d + a div 12"
  define m where "m = a mod 12 + 1"
  have k': "k = a + year d * 12" by (simp add: k_def a_def)
  have ky: "k div 12 = y" and km: "k mod 12 + 1 = m"
    unfolding k' y_def m_def by simp_all
  have a0: "0 \<le> a" using v n by (simp add: a_def valid_date_def)
  then have "0 \<le> a div 12" by simp
  then have y1: "1 \<le> y" using v by (simp add: y_def valid_date_def)
  have m1: "1 \<le> m" "m \<le> 12" unfolding m_def by simp_all
  have "k = 12 * y + (m - 1)" using ky km by presburger
  then have ylt: "y \<le> 9999" "y = 9999 \<Longrightarrow> m < 12"
    using r m1 unfolding k_def by simp_all
  have d1: "1 \<le> day d" using v by (simp add: valid_date_def)
  have spec: "spec_add_months d n
              = \<lparr>year = y, month = m, day = min (day d) (days_in_month y m)\<rparr>"
    unfolding spec_add_months_def Let_def k_def [symmetric] ky km by (rule refl)
  have last: "(case (if m = 12 then mk_date (y + 1) 1 1 else mk_date y (m + 1) 1) of
        Inl e \<Rightarrow> Inl e
      | Inr next_month \<Rightarrow>
          (case date_sub_day next_month of
             Inl e \<Rightarrow> Inl e
           | Inr last_day \<Rightarrow> mk_date y m (min (day d) (day last_day))))
     = mk_date y m (min (day d) (days_in_month y m))"
  proof (cases "m = 12")
    case True
    then have "y < 9999" using ylt by fastforce
    then show ?thesis using True y1
      by (simp add: mk_date_first date_sub_newyear days_in_month_def)
  next
    case False
    then show ?thesis using y1 ylt m1
      by (simp add: mk_date_first date_sub_first)
  qed
  show valid: "valid_date (spec_add_months d n)"
    unfolding spec using y1 ylt m1 d1 days_in_month_ge28 [of y m]
    by (simp add: valid_date_def)
  then have "mk_date y m (min (day d) (days_in_month y m)) = Inr (spec_add_months d n)"
    unfolding spec by (rule mk_date_valid)
  with last show "add_months d n = Inr (spec_add_months d n)"
    using add_months_unfold [OF a_def y_def m_def] by simp
qed

text \<open>
  Past year 9999 there is no date object: the constructor raises, ValueError as long
  as the year fits in a C int and OverflowError beyond.
\<close>

lemma add_months_overflow:
  assumes r: "10000 * 12 \<le> year d * 12 + (month d - 1) + n"
  shows "year d * 12 + (month d - 1) + n < 2147483647 * 12
           \<Longrightarrow> add_months d n = Inl ValueError"
    and "add_months d n = Inl ValueError \<or> add_months d n = Inl OverflowError"
proof -
  define a where "a = month d - 1 + n"
  define y where "y = year d + a div 12"
  define m where "m = a mod 12 + 1"
  have k: "year d * 12 + (month d - 1) + n = 12 * y + (m - 1)"
    unfolding y_def m_def a_def by presburger
  have m: "1 \<le> m" "m \<le> 12" unfolding m_def by simp_all
  have y: "10000 \<le> y" using r k m by simp
  have nv: "\<not> valid_date \<lparr>year = y + 1, month = 1, day = 1\<rparr>"
    "\<not> valid_date \<lparr>year = y, month = m + 1, day = 1\<rparr>"
    using y by (simp_all add: valid_date_def)
  have body: "add_months d n = (if m = 12 then mk_date (y + 1) 1 1 else mk_date y (m + 1) 1)"
    using nv add_months_unfold [OF a_def y_def m_def]
    by (auto simp add: mk_date_def split: if_splits)
  show "add_months d n = Inl ValueError \<or> add_months d n = Inl OverflowError"
    unfolding body using nv by (simp add: mk_date_def)
  show "add_months d n = Inl ValueError"
    if "year d * 12 + (month d - 1) + n < 2147483647 * 12"
  proof -
    from that k m have "y < 2147483647" by simp
    with y m have "c_int (y + 1)" "c_int y" "c_int (m + 1)" "c_int 1"
      by (simp_all add: c_int_def)
    then show ?thesis
      unfolding body using nv by (simp add: mk_date_out_of_range)
  qed
qed

text \<open>
  In December 9999 the first day of the following month does not exist either, so
  \<open>add_months\<close> raises there even when the target date itself exists.
\<close>

lemma add_months_december_9999:
  "add_months \<lparr>year = 9999, month = 12, day = 15\<rparr> 0 = Inl ValueError"
  by (simp add: add_months_def mk_date_def valid_date_def c_int_def)

text \<open>
  Claim C3, as stated: for every valid date \<open>d\<close> and every \<open>n \<ge> 0\<close>, \<open>add_months(d, n)\<close>
  returns the date \<open>n\<close> calendar months after \<open>d\<close>'s month with the day clamped. It
  fails where the result leaves the range of \<open>date\<close>: twelve months after 9999-06-15
  the constructor raises ValueError.
\<close>

theorem add_months_counterexample:
  "valid_date \<lparr>year = 9999, month = 6, day = 15\<rparr> \<and> (0 :: int) \<le> 12 \<and>
   add_months \<lparr>year = 9999, month = 6, day = 15\<rparr> 12 = Inl ValueError"
  by (simp add: add_months_overflow valid_date_def days_in_month_def)

text \<open>
  Claim C3, amended: for every valid date \<open>d\<close> and every \<open>n \<ge> 0\<close> whose target month is
  no later than November 9999, \<open>add_months(d, n)\<close> returns the valid date whose month is
  \<open>n\<close> calendar months after \<open>d\<close>'s month (year carried) and whose day is the minimum
  of \<open>d\<close>'s day and the last day of the target month; and
  \<open>add_months(2024-01-31, 1) = 2024-02-29\<close>, \<open>add_months(2023-01-31, 1) = 2023-02-28\<close>.
\<close>

theorem add_months_civil:
  assumes "valid_date d" and "0 \<le> n"
    and "year d * 12 + (month d - 1) + n < 9999 * 12 + 11"
  shows "add_months d n = Inr (spec_add_months d n) \<and>
         valid_date (spec_add_months d n) \<and>
         add_months \<lparr>year = 2024, month = 1, day = 31\<rparr> 1
           = Inr \<lparr>year = 2024, month = 2, day = 29\<rparr> \<and>
         add_months \<lparr>year = 2023, month = 1, day = 31\<rparr> 1
           = Inr \<lparr>year = 2023, month = 2, day = 28\<rparr>"
proof -
  have ex1: "add_months \<lparr>year = 2024, month = 1, day = 31\<rparr> 1
             = Inr \<lparr>year = 2024, month = 2, day = 29\<rparr>"
    by (simp add: add_months_def mk_date_def valid_date_def days_in_month_def is_leap_def
        date_sub_day_def c_int_def)
  have ex2: "add_months \<lparr>year = 2023, month = 1, day = 31\<rparr> 1
             = Inr \<lparr>year = 2023, month = 2, day = 28\<rparr>"
    by (simp add: add_months_def mk_date_def valid_date_def days_in_month_def is_leap_def
        date_sub_day_def c_int_def)
  show ?thesis
    using add_months_in_range [OF assms] ex1 ex2 by simp
qed

theorem add_months_civil_witness:
  "valid_date \<lparr>year = 2024, month = 11, day = 30\<rparr> \<and> (0 :: int) \<le> 3 \<and>
   add_months \<lparr>year = 2024, month = 11, day = 30\<rparr> 3
     = Inr \<lparr>year = 2025, month = 2, day = 28\<rparr>"
proof -
  have v: "valid_date \<lparr>year = 2024, month = 11, day = 30\<rparr>"
    by (simp add: valid_date_def days_in_month_def)
  have s: "spec_add_months \<lparr>year = 2024, month = 11, day = 30\<rparr> 3
           = \<lparr>year = 2025, month = 2, day = 28\<rparr>"
    by (simp add: spec_add_months_def days_in_month_def is_leap_def)
  show ?thesis
    using v add_months_civil [OF v, of 3] by (simp add: s)
qed

subsection \<open>isoformat and parse_iso\<close>

lemma digit_val_digit_char: "n < 10 \<Longrightarrow> digit_val (digit_char n) = Some n"
  by (simp add: digit_val_def digit_char_def Let_def)

lemma parse_digits_snoc:
  "parse_digits (Suc k) acc s =
     (case parse_digits k acc s of
        None \<Rightarrow> None
      | Some (a, r) \<Rightarrow> parse_digits (Suc 0) a r)"
proof (induction k arbitrary: acc s)
  case 0
  show ?case by simp
next
  case (Suc k)
  show ?case
  proof (cases s)
    case Nil
    then show ?thesis by simp
  next
    case (Cons c t)
    then show ?thesis
      using Suc.IH [of _ t] by (cases "digit_val c") simp_all
  qed
qed

lemma length_pad_digits: "length (pad_digits w n) = w"
  by (induction w arbitrary: n) simp_all

lemma parse_digits_pad:
  "n < 10 ^ w \<Longrightarrow> parse_digits w acc (pad_digits w n @ rest) = Some (acc * 10 ^ w + n, rest)"
proof (induction w arbitrary: n rest)
  case 0
  then show ?case by simp
next
  case (Suc w)
  from Suc.prems have "n div 10 < 10 ^ w" by (simp add: less_mult_imp_div_less mult.commute)
  from Suc.IH [OF this, of "digit_char (n mod 10) # rest"]
  have "parse_digits w acc (pad_digits (Suc w) n @ rest)
        = Some (acc * 10 ^ w + n div 10, digit_char (n mod 10) # rest)"
    by simp
  moreover have "(acc * 10 ^ w + n div 10) * 10 + n mod 10 = acc * 10 ^ Suc w + n"
    by (simp add: algebra_simps)
  ultimately show ?case
    by (simp only: parse_digits_snoc [of w]) (simp add: digit_val_digit_char)
qed

text \<open>What \<open>isoformat\<close> writes for a date object, \<open>parse_iso\<close> reads back.\<close>

lemma parse_iso_isoformat:
  assumes "valid_date d"
  shows "parse_iso (isoformat d) = Inr d"
proof -
  define y where "y = nat (year d)"
  define m where "m = nat (month d)"
  define dd where "dd = nat (day d)"
  have y: "y < 10 ^ 4" "int y = year d"
    using assms unfolding y_def valid_date_def by auto
  have m: "m < 10 ^ 2" "int m = month d"
    using assms unfolding m_def valid_date_def by auto
  have dd: "dd < 10 ^ 2" "int dd = day d"
    using assms days_in_month_le31 [of "year d" "month d"]
    unfolding dd_def valid_date_def by auto
  have iso: "isoformat d
             = pad_digits 4 y @ (CHR ''-'' # pad_digits 2 m @ (CHR ''-'' # pad_digits 2 dd @ []))"
    by (simp add: isoformat_def y_def m_def dd_def)
  have len: "length (isoformat d) = 10"
    unfolding iso by (simp add: length_pad_digits)
  have p1: "parse_digits 4 0 (isoformat d)
            = Some (y, CHR ''-'' # pad_digits 2 m @ (CHR ''-'' # pad_digits 2 dd @ []))"
    unfolding iso using parse_digits_pad [OF y(1), of 0] by simp
  have p2: "parse_digits 2 0 (pad_digits 2 m @ (CHR ''-'' # pad_digits 2 dd @ []))
            = Some (m, CHR ''-'' # pad_digits 2 dd @ [])"
    using parse_digits_pad [OF m(1), of 0] by simp
  have p3: "parse_digits 2 0 (pad_digits 2 dd @ []) = Some (dd, [])"
    using parse_digits_pad [OF dd(1), of 0 "[]"] by simp
  have "mk_date (int y) (int m) (int dd) = Inr d"
    using assms by (cases d) (simp add: mk_date_valid y m dd)
  then show ?thesis
    unfolding parse_iso_def by (simp add: len p1 p2 p3 del: append_Nil2)
qed

text \<open>Every date \<open>parse_iso\<close> returns has passed the constructor.\<close>

lemma parse_iso_valid:
  assumes "parse_iso s = Inr d"
  shows "valid_date d"
  using assms unfolding parse_iso_def
  by (auto split: if_splits option.splits list.splits prod.splits dest: mk_date_Inr(2))

subsection \<open>infer_status\<close>

text \<open>
  Claim C4: for every valid ISO date \<open>d\<close>, \<open>infer_status(d)\<close> returns \<open>active\<close> if and
  only if \<open>d \<ge> today\<close>, and \<open>expired\<close> otherwise; \<open>infer_status\<close> of today's own date
  is \<open>active\<close>.
\<close>

theorem infer_status_active_iff:
  assumes "parse_iso s = Inr d" and "valid_date today"
  shows "(infer_status today s = Inr ''active'' \<longleftrightarrow> date_le today d) \<and>
         (infer_status today s = Inr ''expired'' \<longleftrightarrow> \<not> date_le today d) \<and>
         infer_status today (isoformat today) = Inr ''active''"
  using assms by (simp add: infer_status_def parse_iso_isoformat date_le_refl)

theorem infer_status_active_iff_witness:
  "parse_iso ''2024-03-10'' = Inr \<lparr>year = 2024, month = 3, day = 10\<rparr> \<and>
   valid_date \<lparr>year = 2024, month = 3, day = 11\<rparr> \<and>
   infer_status \<lparr>year = 2024, month = 3, day = 11\<rparr> ''2024-03-10'' = Inr ''expired'' \<and>
   infer_status \<lparr>year = 2024, month = 3, day = 11\<rparr>
     (isoformat \<lparr>year = 2024, month = 3, day = 11\<rparr>) = Inr ''active''"
proof -
  have p: "parse_iso ''2024-03-10'' = Inr \<lparr>year = 2024, month = 3, day = 10\<rparr>"
    by code_simp
  have v: "valid_date \<lparr>year = 2024, month = 3, day = 11\<rparr>"
    by (simp add: valid_date_def days_in_month_def)
  have n: "\<not> date_le \<lparr>year = 2024, month = 3, day = 11\<rparr> \<lparr>year = 2024, month = 3, day = 10\<rparr>"
    by (simp add: date_le_def)
  show ?thesis
    using p v n infer_status_active_iff [OF p v] by simp
qed

subsection \<open>The next day\<close>

lemma date_le_antisym: "date_le a b \<Longrightarrow> date_le b a \<Longrightarrow> a = b"
  by (cases a; cases b) (auto simp add: date_le_def)

text \<open>
  \<open>date_add_day\<close> is the next day of the calendar: for every date but 9999-12-31 it
  returns a valid later date, and no valid date lies between.
\<close>

lemma date_add_day_next:
  assumes v: "valid_date e" and nm: "e \<noteq> \<lparr>year = 9999, month = 12, day = 31\<rparr>"
  shows "\<exists>e'. date_add_day e = Inr e' \<and> valid_date e' \<and> date_lt e e' \<and>
              (\<forall>x. date_lt e x \<and> valid_date x \<longrightarrow> date_le e' x)"
proof -
  obtain y m d where e: "e = \<lparr>year = y, month = m, day = d\<rparr>" by (cases e)
  have b: "1 \<le> y" "y \<le> 9999" "1 \<le> m" "m \<le> 12" "1 \<le> d" "d \<le> days_in_month y m"
    using v by (simp_all add: e valid_date_def)
  have lt: "date_lt e x \<longleftrightarrow>
            y < year x \<or> (y = year x \<and> (m < month x \<or> (m = month x \<and> d < day x)))" for x
    by (cases x) (auto simp add: e date_lt_def date_le_def)
  consider (mid) "d < days_in_month y m"
    | (eom) "d = days_in_month y m" "m < 12"
    | (eoy) "d = days_in_month y m" "m = 12"
    using b by linarith
  then show ?thesis
  proof cases
    case mid
    let ?e' = "\<lparr>year = y, month = m, day = d + 1\<rparr>"
    have "date_add_day e = Inr ?e'"
      using mid b by (simp add: e date_add_day_def)
    moreover have "valid_date ?e'"
      using mid b by (simp add: valid_date_def)
    moreover have "date_lt e ?e'" by (simp add: lt)
    moreover have "date_le ?e' x" if "date_lt e x" for x
      using that by (auto simp add: lt date_le_def)
    ultimately show ?thesis by blast
  next
    case eom
    let ?e' = "\<lparr>year = y, month = m + 1, day = 1\<rparr>"
    have "date_add_day e = Inr ?e'"
      using eom b by (simp add: e date_add_day_def)
    moreover have "valid_date ?e'"
      using eom b days_in_month_ge28 [of y "m + 1"] by (simp add: valid_date_def)
    moreover have "date_lt e ?e'" by (simp add: lt)
    moreover have "date_le ?e' x" if "date_lt e x" "valid_date x" for x
      using that eom by (auto simp add: lt date_le_def valid_date_def)
    ultimately show ?thesis by blast
  next
    case eoy
    then have d31: "d = 31" by (simp add: days_in_month_def)
    have "y \<noteq> 9999" using nm d31 eoy(2) by (simp add: e)
    with b have y: "y < 9999" by simp
    let ?e' = "\<lparr>year = y + 1, month = 1, day = 1\<rparr>"
    have "date_add_day e = Inr ?e'"
      using eoy b y by (simp add: e date_add_day_def)
    moreover have "valid_date ?e'"
      using b y by (simp add: valid_date_def days_in_month_def)
    moreover have "date_lt e ?e'" by (simp add: lt)
    moreover have "date_le ?e' x" if "date_lt e x" "valid_date x" for x
      using that eoy by (auto simp add: lt date_le_def valid_date_def)
    ultimately show ?thesis by blast
  qed
qed

text \<open>The dates of the sample database.\<close>

lemma sample_parse:
  "parse_iso ''2024-04-02'' = Inr \<lparr>year = 2024, month = 4, day = 2\<rparr>"
  "parse_iso ''2024-06-18'' = Inr \<lparr>year = 2024, month = 6, day = 18\<rparr>"
  "parse_iso ''2024-03-26'' = Inr \<lparr>year = 2024, month = 3, day = 26\<rparr>"
  by code_simp+

lemma sample_second_end_date: "calc_end_date ''2024-03-18'' ''3 months'' = Inr ''2024-06-18''"
  by code_simp

subsection \<open>calc_end_date\<close>

lemma plan_months_get:
  "(case PLAN_MONTHS t of None \<Rightarrow> 1 | Some k \<Rightarrow> k) = spec_plan_months t"
  by (simp add: PLAN_MONTHS_def spec_plan_months_def)

lemma calc_end_date_example: "calc_end_date ''2024-01-15'' ''3 months'' = Inr ''2024-04-15''"
  by code_simp

text \<open>
  Claim C5: for every valid ISO start date \<open>s\<close> and every plan type \<open>t\<close>,
  \<open>calc_end_date(s, t)\<close> is \<open>add_months(s, m)\<close> (written back as an ISO string), where
  \<open>m\<close> is 1, 3, 6 or 12 for the four enumerated plan types and 1 for every other \<open>t\<close>:
  an unknown plan type behaves as \<open>"1 month"\<close>, it is no error of its own. And
  \<open>calc_end_date("2024-01-15", "3 months") = "2024-04-15"\<close>.
\<close>

theorem calc_end_date_plan:
  assumes "parse_iso s = Inr d"
  shows "calc_end_date s t =
           (case add_months d (spec_plan_months t) of
              Inl e \<Rightarrow> Inl e | Inr r \<Rightarrow> Inr (isoformat r)) \<and>
         (t \<notin> dom PLAN_MONTHS \<longrightarrow> calc_end_date s t = calc_end_date s ''1 month'') \<and>
         calc_end_date ''2024-01-15'' ''3 months'' = Inr ''2024-04-15''"
proof -
  have "calc_end_date s t =
           (case add_months d (spec_plan_months t) of
              Inl e \<Rightarrow> Inl e | Inr r \<Rightarrow> Inr (isoformat r))" for t
    using assms by (simp add: calc_end_date_def plan_months_get)
  moreover have "t \<notin> dom PLAN_MONTHS \<Longrightarrow> spec_plan_months t = spec_plan_months ''1 month''"
    by (auto simp add: PLAN_MONTHS_def spec_plan_months_def split: if_splits)
  ultimately show ?thesis using calc_end_date_example by simp
qed

theorem calc_end_date_plan_witness:
  "parse_iso ''2024-01-31'' = Inr \<lparr>year = 2024, month = 1, day = 31\<rparr> \<and>
   ''weekly'' \<notin> dom PLAN_MONTHS \<and>
   calc_end_date ''2024-01-31'' ''weekly'' = Inr ''2024-02-29'' \<and>
   calc_end_date ''2024-01-31'' ''1 month'' = Inr ''2024-02-29''"
proof -
  have p: "parse_iso ''2024-01-31'' = Inr \<lparr>year = 2024, month = 1, day = 31\<rparr>"
    by code_simp
  have w: "''weekly'' \<notin> dom PLAN_MONTHS"
    by (simp add: PLAN_MONTHS_def)
  have a: "add_months \<lparr>year = 2024, month = 1, day = 31\<rparr> 1
           = Inr \<lparr>year = 2024, month = 2, day = 29\<rparr>"
    by code_simp
  have i: "isoformat \<lparr>year = 2024, month = 2, day = 29\<rparr> = ''2024-02-29''"
    by code_simp
  have s: "spec_plan_months ''weekly'' = 1"
    by (simp add: spec_plan_months_def)
  note th = calc_end_date_plan [OF p, of "''weekly''"]
  have c: "calc_end_date ''2024-01-31'' ''weekly'' = Inr ''2024-02-29''"
    using th by (simp add: s a i)
  have e: "calc_end_date ''2024-01-31'' ''weekly'' = calc_end_date ''2024-01-31'' ''1 month''"
    using th w by blast
  have "calc_end_date ''2024-01-31'' ''1 month'' = Inr ''2024-02-29''"
    by (rule trans [OF e [symmetric] c])
  with p w c show ?thesis by blast
qed

section \<open>Properties of the validation\<close>

text \<open>
  The price message is in the list exactly when \<open>float(plan_price)\<close> raises: the sign
  of the number is never looked at.
\<close>

lemma price_error_iff:
  assumes "validate_member_inputs n p pr sd ed = Inr errs"
  shows "''Plan price must be numeric.'' \<in> set errs \<longleftrightarrow> isl (py_float pr)"
  using assms
  by (cases "parse_iso sd"; cases "parse_iso ed"; cases "py_float pr")
     (auto simp add: validate_member_inputs_def Let_def split: if_splits)

text \<open>
  The function is the instance of \<open>validate_member_inputs_with\<close> at the modelled
  library, and for every library the result is a list in which a date that does not
  parse gives the format message and not the ordering message.
\<close>

lemma validate_member_inputs_instance:
  "validate_member_inputs n p pr sd ed
   = validate_member_inputs_with strip py_float parse_iso n p pr sd ed"
  by (simp add: validate_member_inputs_def validate_member_inputs_with_def)

lemma validate_member_inputs_with_total:
  "\<exists>errs. validate_member_inputs_with strip_fn float_fn fromisoformat n p pr sd ed = Inr errs \<and>
     (isl (fromisoformat sd) \<or> isl (fromisoformat ed) \<longrightarrow>
        ''Start/end dates must be valid ISO dates (YYYY-MM-DD).'' \<in> set errs \<and>
        ''End date must be after start date.'' \<notin> set errs)"
  by (cases "fromisoformat sd"; cases "fromisoformat ed"; cases "float_fn pr")
     (simp_all add: validate_member_inputs_with_def Let_def)

text \<open>
  Claim C2 says that a price which parses as a negative number yields a price error.
  The code at the input \<open>("Jane Doe", "0100000000", "-5", "2024-01-01", "2024-02-01")\<close>:
  \<open>float("-5")\<close> succeeds with a negative value and the returned list is empty.
\<close>

theorem validate_member_inputs_negative_price:
  "py_float (PyStr ''-5'') = Inr (Finite True 5 0) \<and>
   fv_negative (Finite True 5 0) \<and>
   validate_member_inputs ''Jane Doe'' ''0100000000'' (PyStr ''-5'') ''2024-01-01'' ''2024-02-01''
     = Inr []"
  by code_simp

text \<open>
  Claim C7: for all string arguments and any price value, \<open>validate_member_inputs\<close>
  returns a list (it does not raise), and when the start date or the end date does not
  parse, the list holds the date-format message and not the ordering message.
\<close>

theorem validate_member_inputs_total:
  "\<exists>errs. validate_member_inputs n p pr sd ed = Inr errs \<and>
     (isl (parse_iso sd) \<or> isl (parse_iso ed) \<longrightarrow>
        ''Start/end dates must be valid ISO dates (YYYY-MM-DD).'' \<in> set errs \<and>
        ''End date must be after start date.'' \<notin> set errs)"
  by (cases "parse_iso sd"; cases "parse_iso ed"; cases "py_float pr")
     (simp_all add: validate_member_inputs_def Let_def)

theorem validate_member_inputs_total_witness:
  "isl (parse_iso ''2024-13-01'') \<and>
   validate_member_inputs ''Jane Doe'' ''0100000000'' (PyStr ''300'') ''2024-13-01'' ''2024-02-01''
     = Inr [''Start/end dates must be valid ISO dates (YYYY-MM-DD).'']"
proof -
  have i: "isl (parse_iso ''2024-13-01'')" by code_simp
  have v: "validate_member_inputs ''Jane Doe'' ''0100000000'' (PyStr ''300'')
             ''2024-13-01'' ''2024-02-01''
           = Inr [''Start/end dates must be valid ISO dates (YYYY-MM-DD).'']"
    by code_simp
  show ?thesis
    using i v validate_member_inputs_total [of "''Jane Doe''" "''0100000000''" "PyStr ''300''"
        "''2024-13-01''" "''2024-02-01''"]
    by simp
qed

section \<open>Properties of the persistence layer and of the pages\<close>

subsection \<open>Deleting a member\<close>

text \<open>On the connection \<open>get_conn\<close> yields, no delete touches the payments table.\<close>

lemma members_page_delete_payments:
  "payments (members_page_delete i db) = payments db"
  by (simp add: members_page_delete_def delete_member_stmt_def get_conn_def)

text \<open>With the enforcement on, the same statement leaves no orphan behind.\<close>

lemma delete_member_stmt_cascade:
  assumes "orphan_payments db = []"
  shows "orphan_payments (delete_member_stmt \<lparr>foreign_keys = True\<rparr> i db) = []"
  using assms
  by (auto simp add: orphan_payments_def delete_member_stmt_def filter_empty_conv)

text \<open>
  Claim C1 says that deleting a member removes the payments that reference it, so that
  no orphan payment remains. The code on the sample database, deleting member 3: the
  member is gone, the payments table is unchanged, and payment 3 references no member.
\<close>

theorem members_page_delete_leaves_orphan:
  "orphan_payments sample_db = [] \<and>
   map m_id (members (members_page_delete 3 sample_db)) = [1, 2] \<and>
   payments (members_page_delete 3 sample_db) = payments sample_db \<and>
   map p_id (orphan_payments (members_page_delete 3 sample_db)) = [3]"
  by (simp add: orphan_payments_def members_page_delete_def delete_member_stmt_def get_conn_def
      sample_db_def sample_members_def sample_payments_def)

subsection \<open>The renewal default\<close>

text \<open>
  Claim C6, as stated: for every member whose end date is in the future the default
  start date is \<open>end_date + 1 day\<close>. It fails for the end date 9999-12-31, the last
  date there is: no default is produced, \<open>current_end + timedelta(days=1)\<close> raises
  OverflowError.
\<close>

theorem renewals_default_start_counterexample:
  "parse_iso (m_end_date ((sample_members ! 0)\<lparr>m_end_date := ''9999-12-31''\<rparr>))
     = Inr \<lparr>year = 9999, month = 12, day = 31\<rparr> \<and>
   date_lt sample_today \<lparr>year = 9999, month = 12, day = 31\<rparr> \<and>
   renewals_page_default_start sample_today
     ((sample_members ! 0)\<lparr>m_end_date := ''9999-12-31''\<rparr>) = Inl OverflowError"
proof -
  have p: "parse_iso ''9999-12-31'' = Inr \<lparr>year = 9999, month = 12, day = 31\<rparr>"
    by code_simp
  have l: "date_lt sample_today \<lparr>year = 9999, month = 12, day = 31\<rparr>"
    by (simp add: date_lt_def date_le_def sample_today_def)
  have a: "date_add_day \<lparr>year = 9999, month = 12, day = 31\<rparr> = Inl OverflowError"
    by (simp add: date_add_day_def days_in_month_def)
  show ?thesis
    using l by (simp add: renewals_page_default_start_def sample_members_def p a date_lt_def)
qed

text \<open>
  Claim C6, amended: in the renewal flow, for every member whose end date is today or
  in the future (the test of the code is \<open>end_date \<ge> today\<close>) and is not 9999-12-31,
  the default start date is the day after the end date: a valid date later than the
  end date with no valid date in between. For every member whose end date has passed,
  the default start date is today.
\<close>

theorem renewals_default_start:
  assumes "parse_iso (m_end_date m) = Inr e"
  shows "(date_le today e \<and> e \<noteq> \<lparr>year = 9999, month = 12, day = 31\<rparr> \<longrightarrow>
            (\<exists>s. renewals_page_default_start today m = Inr s \<and> valid_date s \<and>
                 date_lt e s \<and> (\<forall>x. valid_date x \<and> date_lt e x \<longrightarrow> date_le s x))) \<and>
         (date_lt e today \<longrightarrow> renewals_page_default_start today m = Inr today)"
proof (intro conjI impI)
  assume h: "date_le today e \<and> e \<noteq> \<lparr>year = 9999, month = 12, day = 31\<rparr>"
  have v: "valid_date e" using assms by (rule parse_iso_valid)
  from date_add_day_next [OF v] h obtain s where
    s: "date_add_day e = Inr s" "valid_date s" "date_lt e s"
      "\<forall>x. date_lt e x \<and> valid_date x \<longrightarrow> date_le s x"
    by blast
  have "renewals_page_default_start today m = Inr s"
    using assms h s(1) by (simp add: renewals_page_default_start_def)
  with s show "\<exists>s. renewals_page_default_start today m = Inr s \<and> valid_date s \<and>
                 date_lt e s \<and> (\<forall>x. valid_date x \<and> date_lt e x \<longrightarrow> date_le s x)"
    by blast
next
  assume "date_lt e today"
  then have "\<not> date_le today e"
    using date_le_antisym [of e today] by (auto simp add: date_lt_def)
  then show "renewals_page_default_start today m = Inr today"
    using assms by (simp add: renewals_page_default_start_def)
qed

theorem renewals_default_start_witness:
  "parse_iso (m_end_date ((sample_members ! 0)\<lparr>m_end_date := ''2024-12-31''\<rparr>))
     = Inr \<lparr>year = 2024, month = 12, day = 31\<rparr> \<and>
   date_le sample_today \<lparr>year = 2024, month = 12, day = 31\<rparr> \<and>
   \<lparr>year = 2024, month = 12, day = 31\<rparr> \<noteq> \<lparr>year = 9999, month = 12, day = 31\<rparr> \<and>
   renewals_page_default_start sample_today
     ((sample_members ! 0)\<lparr>m_end_date := ''2024-12-31''\<rparr>)
     = Inr \<lparr>year = 2025, month = 1, day = 1\<rparr> \<and>
   valid_date \<lparr>year = 2025, month = 1, day = 1\<rparr> \<and>
   date_lt \<lparr>year = 2024, month = 12, day = 31\<rparr> \<lparr>year = 2025, month = 1, day = 1\<rparr> \<and>
   parse_iso (m_end_date (sample_members ! 2)) = Inr \<lparr>year = 2024, month = 3, day = 26\<rparr> \<and>
   date_lt \<lparr>year = 2024, month = 3, day = 26\<rparr> sample_today \<and>
   renewals_page_default_start sample_today (sample_members ! 2) = Inr sample_today"
proof -
  let ?m1 = "(sample_members ! 0)\<lparr>m_end_date := ''2024-12-31''\<rparr>"
  let ?e1 = "\<lparr>year = 2024, month = 12, day = 31\<rparr>"
  have p1: "parse_iso (m_end_date ?m1) = Inr ?e1"
    by code_simp
  have p3: "parse_iso (m_end_date (sample_members ! 2))
            = Inr \<lparr>year = 2024, month = 3, day = 26\<rparr>"
    by (simp add: sample_members_def sample_parse)
  have l1: "date_le sample_today ?e1"
    by (simp add: date_le_def sample_today_def)
  have n1: "?e1 \<noteq> \<lparr>year = 9999, month = 12, day = 31\<rparr>"
    by simp
  have l3: "date_lt \<lparr>year = 2024, month = 3, day = 26\<rparr> sample_today"
    by (simp add: date_lt_def date_le_def sample_today_def)
  have r1: "renewals_page_default_start sample_today ?m1
            = Inr \<lparr>year = 2025, month = 1, day = 1\<rparr>"
    by code_simp
  from renewals_default_start [OF p1, of sample_today] l1 n1 obtain s where
    s: "renewals_page_default_start sample_today ?m1 = Inr s" "valid_date s" "date_lt ?e1 s"
    by blast
  from s(1) r1 have "s = \<lparr>year = 2025, month = 1, day = 1\<rparr>" by simp
  with s have f1: "valid_date \<lparr>year = 2025, month = 1, day = 1\<rparr>"
    "date_lt ?e1 \<lparr>year = 2025, month = 1, day = 1\<rparr>"
    by simp_all
  from renewals_default_start [OF p3, of sample_today] l3
  have f3: "renewals_page_default_start sample_today (sample_members ! 2) = Inr sample_today"
    by blast
  show ?thesis
    using p1 p3 l1 n1 l3 r1 f1 f3 by blast
qed

subsection \<open>The status refresh pass\<close>

lemma infer_status_parsed:
  assumes "parse_iso e = Inr d"
  shows "infer_status today e = Inr (status_or today e cur)"
    and "status_or today e cur = ''active'' \<or> status_or today e cur = ''expired''"
  using assms by (simp_all add: infer_status_def status_or_def)

lemma status_or_idem: "status_or today e (status_or today e cur) = status_or today e cur"
  by (cases "infer_status today e") (simp_all add: status_or_def)

lemma refreshed_idem: "refreshed today (refreshed today m) = refreshed today m"
  by (simp add: refreshed_def status_or_idem)

lemma refresh_step_keeps:
  "m_id (refresh_step today r m) = m_id m"
  "m_end_date (refresh_step today r m) = m_end_date m"
  by (simp_all add: refresh_step_def)

text \<open>
  The loop, when every fetched end date parses: each UPDATE maps \<open>refresh_step\<close> over
  the table, so the whole pass maps the fold of the steps over it.
\<close>

lemma refresh_loop_map:
  assumes "\<And>i e. (i, e) \<in> set rows \<Longrightarrow> \<exists>d. parse_iso e = Inr d"
  shows "refresh_loop today rows db
         = Inr (db\<lparr>members := map (\<lambda>m. fold (refresh_step today) rows m) (members db)\<rparr>)"
  using assms
proof (induction rows arbitrary: db)
  case Nil
  show ?case by simp
next
  case (Cons r rows)
  obtain i e where r: "r = (i, e)" by (cases r)
  from Cons.prems [of i e] r obtain d where d: "parse_iso e = Inr d" by auto
  define db1 where "db1 = db\<lparr>members := map (refresh_step today r) (members db)\<rparr>"
  have st: "status_or today e cur = status_or today e []" for cur
    using d by (simp add: status_or_def infer_status_def)
  have inf: "infer_status today e = Inr (status_or today e [])"
    and ok: "status_or today e [] = ''active'' \<or> status_or today e [] = ''expired''"
    using infer_status_parsed [OF d, of today "[]"] by simp_all
  have "map (\<lambda>m. if m_id m = i then m\<lparr>m_status := status_or today e []\<rparr> else m) (members db)
        = map (refresh_step today r) (members db)"
    by (rule map_cong) (simp_all add: refresh_step_def r st [symmetric])
  then have upd: "update_member_status (status_or today e []) i db = Inr db1"
    using ok by (auto simp add: update_member_status_def db1_def)
  have rest: "refresh_loop today rows db1
              = Inr (db1\<lparr>members := map (\<lambda>m. fold (refresh_step today) rows m) (members db1)\<rparr>)"
    by (rule Cons.IH) (use Cons.prems in auto)
  show ?case
    by (simp add: r inf upd rest) (simp add: db1_def r comp_def)
qed

text \<open>
  A row whose id occurs among the fetched rows only with its own end date ends with
  the status of that end date.
\<close>

lemma fold_refresh_step:
  assumes "\<And>i e. (i, e) \<in> set rows \<Longrightarrow> i = m_id m \<Longrightarrow> e = m_end_date m"
  shows "fold (refresh_step today) rows m
         = (if m_id m \<in> fst ` set rows then refreshed today m else m)"
  using assms
proof (induction rows arbitrary: m)
  case Nil
  show ?case by simp
next
  case (Cons r rows)
  obtain i e where r: "r = (i, e)" by (cases r)
  let ?m1 = "refresh_step today r m"
  have keep: "m_id ?m1 = m_id m" "m_end_date ?m1 = m_end_date m"
    by (simp_all add: refresh_step_keeps)
  have ih: "fold (refresh_step today) rows ?m1
            = (if m_id ?m1 \<in> fst ` set rows then refreshed today ?m1 else ?m1)"
    by (rule Cons.IH) (use Cons.prems keep in auto)
  have step: "fold (refresh_step today) (r # rows) m = fold (refresh_step today) rows ?m1"
    by simp
  show ?case
  proof (cases "i = m_id m")
    case True
    then have e: "e = m_end_date m" using Cons.prems [of i e] r by simp
    then have m1: "?m1 = refreshed today m"
      using True by (simp add: refresh_step_def refreshed_def r)
    have "fold (refresh_step today) rows ?m1 = refreshed today m"
      unfolding ih unfolding m1 by (simp add: refreshed_idem)
    with step show ?thesis using True by (simp add: r)
  next
    case False
    then have m1: "?m1 = m" by (simp add: refresh_step_def r)
    have "fold (refresh_step today) rows ?m1
          = (if m_id m \<in> fst ` set rows then refreshed today m else m)"
      unfolding ih unfolding m1 by (rule refl)
    with step show ?thesis using False by (simp add: r)
  qed
qed

lemma refresh_member_statuses_map:
  assumes dist: "distinct (map m_id (members db))"
    and parse: "\<forall>m \<in> set (members db). \<exists>d. parse_iso (m_end_date m) = Inr d"
  shows "refresh_member_statuses today db
         = Inr (db\<lparr>members := map (refreshed today) (members db)\<rparr>)"
proof -
  let ?rows = "map (\<lambda>m. (m_id m, m_end_date m)) (members db)"
  have inj: "inj_on m_id (set (members db))"
    using dist by (simp add: distinct_map)
  have "fold (refresh_step today) ?rows m = refreshed today m" if m: "m \<in> set (members db)" for m
  proof -
    have "e = m_end_date m" if "(i, e) \<in> set ?rows" "i = m_id m" for i e
    proof -
      from that obtain m' where "m' \<in> set (members db)" "m_id m' = m_id m" "e = m_end_date m'"
        by auto
      with inj m show ?thesis by (auto dest: inj_onD)
    qed
    then have "fold (refresh_step today) ?rows m
               = (if m_id m \<in> fst ` set ?rows then refreshed today m else m)"
      by (rule fold_refresh_step)
    moreover have "m_id m \<in> fst ` set ?rows" using m by force
    ultimately show ?thesis by simp
  qed
  then have "map (\<lambda>m. fold (refresh_step today) ?rows m) (members db)
             = map (refreshed today) (members db)"
    by simp
  moreover have "refresh_loop today ?rows db
         = Inr (db\<lparr>members := map (\<lambda>m. fold (refresh_step today) ?rows m) (members db)\<rparr>)"
    by (rule refresh_loop_map) (use parse in auto)
  ultimately show ?thesis
    by (simp add: refresh_member_statuses_def)
qed

text \<open>The pass on the sample database, thirteen days later: the first member has expired.\<close>

lemma refresh_sample_statuses:
  "map_sum id (\<lambda>db'. map m_status (members db'))
     (refresh_member_statuses \<lparr>year = 2024, month = 4, day = 10\<rparr> sample_db)
   = Inr [''expired'', ''active'', ''expired'']"
  by code_simp

text \<open>
  Claim C8: the status refresh pass establishes \<open>status = infer_status(end_date)\<close> for
  every member row and changes no other field of any member (nor any other table), and
  a second pass on the same day returns the same database. The member ids are distinct
  (the primary key) and every stored end date is an ISO date.
\<close>

theorem refresh_member_statuses_idempotent:
  assumes dist: "distinct (map m_id (members db))"
    and parse: "\<forall>m \<in> set (members db). \<exists>d. parse_iso (m_end_date m) = Inr d"
  shows "\<exists>db'. refresh_member_statuses today db = Inr db' \<and>
           list_all2 (\<lambda>m m'. infer_status today (m_end_date m') = Inr (m_status m') \<and>
                              m' = m\<lparr>m_status := m_status m'\<rparr>)
             (members db) (members db') \<and>
           payments db' = payments db \<and> admin_users db' = admin_users db \<and>
           app_settings db' = app_settings db \<and>
           refresh_member_statuses today db' = Inr db'"
proof -
  define db' where "db' = db\<lparr>members := map (refreshed today) (members db)\<rparr>"
  have r1: "refresh_member_statuses today db = Inr db'"
    unfolding db'_def by (rule refresh_member_statuses_map [OF dist parse])
  have ids: "map m_id (members db') = map m_id (members db)"
    by (simp add: db'_def refreshed_def comp_def)
  have dist': "distinct (map m_id (members db'))"
    using dist by (simp only: ids)
  have parse': "\<forall>m \<in> set (members db'). \<exists>d. parse_iso (m_end_date m) = Inr d"
    using parse by (auto simp add: db'_def refreshed_def)
  have "map (refreshed today) (members db') = members db'"
    by (simp add: db'_def refreshed_idem comp_def)
  then have r2: "refresh_member_statuses today db' = Inr db'"
    using refresh_member_statuses_map [OF dist' parse', of today] by simp
  have rows: "list_all2 (\<lambda>m m'. infer_status today (m_end_date m') = Inr (m_status m') \<and>
                              m' = m\<lparr>m_status := m_status m'\<rparr>)
             (members db) (members db')"
  proof -
    have "infer_status today (m_end_date (refreshed today m))
            = Inr (m_status (refreshed today m)) \<and>
          refreshed today m = m\<lparr>m_status := m_status (refreshed today m)\<rparr>"
      if "m \<in> set (members db)" for m
    proof -
      from parse that obtain d where "parse_iso (m_end_date m) = Inr d" by blast
      from infer_status_parsed(1) [OF this, of today "m_status m"] show ?thesis
        by (simp add: refreshed_def)
    qed
    then show ?thesis
      unfolding db'_def by (simp add: list_all2_conv_all_nth)
  qed
  show ?thesis
    using r1 r2 rows by (auto simp add: db'_def)
qed

theorem refresh_member_statuses_idempotent_witness:
  "distinct (map m_id (members sample_db)) \<and>
   map (\<lambda>m. parse_iso (m_end_date m)) (members sample_db)
     = [Inr \<lparr>year = 2024, month = 4, day = 2\<rparr>, Inr \<lparr>year = 2024, month = 6, day = 18\<rparr>,
        Inr \<lparr>year = 2024, month = 3, day = 26\<rparr>] \<and>
   (\<exists>db'. refresh_member_statuses \<lparr>year = 2024, month = 4, day = 10\<rparr> sample_db = Inr db' \<and>
      list_all2 (\<lambda>m m'. infer_status \<lparr>year = 2024, month = 4, day = 10\<rparr> (m_end_date m')
                           = Inr (m_status m') \<and>
                         m' = m\<lparr>m_status := m_status m'\<rparr>)
        (members sample_db) (members db') \<and>
      payments db' = payments sample_db \<and>
      refresh_member_statuses \<lparr>year = 2024, month = 4, day = 10\<rparr> db' = Inr db')"
proof -
  have d: "distinct (map m_id (members sample_db))"
    by (simp add: sample_db_def sample_members_def)
  have p: "\<forall>m \<in> set (members sample_db). \<exists>d. parse_iso (m_end_date m) = Inr d"
    by (simp add: sample_db_def sample_members_def sample_parse)
  have q: "map (\<lambda>m. parse_iso (m_end_date m)) (members sample_db)
     = [Inr \<lparr>year = 2024, month = 4, day = 2\<rparr>, Inr \<lparr>year = 2024, month = 6, day = 18\<rparr>,
        Inr \<lparr>year = 2024, month = 3, day = 26\<rparr>]"
    by (simp add: sample_db_def sample_members_def sample_parse)
  show ?thesis
    using d q refresh_member_statuses_idempotent [OF d p, of "\<lparr>year = 2024, month = 4, day = 10\<rparr>"]
    by blast
qed

section \<open>Properties of the authentication\<close>

text \<open>
  Claim C9: for a username with no row in \<open>admin_users\<close> and any password, \<open>login\<close>
  returns false, whatever the password check would do: the statement holds for every
  \<open>checkpw\<close>, also one that raises on every call, so the check is not consulted.
\<close>

theorem login_unknown_user:
  assumes "username \<notin> set (map a_username (admin_users db))"
  shows "login checkpw db username password = Inr False"
proof -
  have "get_admin_by_username db username = None"
    using assms by (auto simp add: get_admin_by_username_def find_None_iff)
  then show ?thesis by (simp add: login_def)
qed

theorem login_unknown_user_witness:
  "''bob'' \<notin> set (map a_username (admin_users sample_db)) \<and>
   login (\<lambda>secret stored. Inl ValueError) sample_db ''bob'' ''admin123'' = Inr False"
proof -
  have h: "''bob'' \<notin> set (map a_username (admin_users sample_db))"
    by (simp add: sample_db_def)
  show ?thesis
    using h login_unknown_user [OF h] by simp
qed

text \<open>
  Claim C10: for every username, also one without a row in \<open>admin_users\<close>,
  \<open>change_password\<close> completes and sets \<open>force_password_change\<close> to \<open>"0"\<close>; when no row
  has the username, \<open>admin_users\<close> is unchanged and the flag is cleared all the same.
  The one call that can fail is the bcrypt hash of the new password, which does not
  depend on the username or on the database; it is assumed to return a hash.
\<close>

theorem change_password_clears_flag:
  assumes "hash_password hashpw salt new_password = Inr h"
  shows "\<exists>db'. change_password hashpw salt username new_password db = Inr db' \<and>
           app_settings db' ''force_password_change'' = Some ''0'' \<and>
           (username \<notin> set (map a_username (admin_users db)) \<longrightarrow>
              admin_users db' = admin_users db) \<and>
           members db' = members db \<and> payments db' = payments db"
proof -
  have "username \<notin> set (map a_username (admin_users db)) \<Longrightarrow>
        map (\<lambda>a. if a_username a = username then a\<lparr>a_password_hash := h\<rparr> else a)
          (admin_users db) = admin_users db"
    by (rule map_idI) auto
  then show ?thesis
    using assms
    by (simp add: change_password_def clear_force_password_change_def set_setting_def
        update_admin_hash_def)
qed

theorem change_password_clears_flag_witness:
  "hash_password (\<lambda>secret salt. Inr (salt @ secret)) ''salt'' ''secret1'' = Inr ''saltsecret1'' \<and>
   ''bob'' \<notin> set (map a_username (admin_users sample_db)) \<and>
   app_settings sample_db ''force_password_change'' = Some ''1'' \<and>
   (\<exists>db'. change_password (\<lambda>secret salt. Inr (salt @ secret)) ''salt'' ''bob'' ''secret1''
             sample_db = Inr db' \<and>
          app_settings db' ''force_password_change'' = Some ''0'' \<and>
          admin_users db' = admin_users sample_db)"
proof -
  have h: "hash_password (\<lambda>secret salt. Inr (salt @ secret)) ''salt'' ''secret1''
           = Inr ''saltsecret1''"
    by (simp add: hash_password_def to_bcrypt_secret_def)
  have u: "''bob'' \<notin> set (map a_username (admin_users sample_db))"
    by (simp add: sample_db_def)
  have f: "app_settings sample_db ''force_password_change'' = Some ''1''"
    by (simp add: sample_db_def)
  show ?thesis
    using h u f change_password_clears_flag [OF h, of "''bob''" sample_db] by blast
qed

end
